theory Spec2Isabelle
  imports Main "HOL-Library.Sublist" "HOL-Library.Multiset"
begin

section \<open>The data of the appointment checker\<close>

text \<open>
  The script \<^verbatim>\<open>src/index.js\<close> reads two JSON collections from a remote scheduling service:
  the locations and, per location, the soonest slots. A location is an object with the
  fields \<^verbatim>\<open>id\<close>, \<^verbatim>\<open>name\<close> and \<^verbatim>\<open>state\<close> (the field \<^verbatim>\<open>id\<close> is written \<open>id_loc\<close>, since
  \<open>id\<close> is the identity function of HOL); the remote fields the script never reads are
  left out. A slot carries \<^verbatim>\<open>locationId\<close>, \<^verbatim>\<open>startTimestamp\<close> and
  \<^verbatim>\<open>endTimestamp\<close>, integers (milliseconds since the epoch). An appointment is the
  object literal built in \<^verbatim>\<open>getAvailableAppointments\<close>; its field \<^verbatim>\<open>end\<close> is written
  \<open>end_time\<close>.
\<close>

record location =
  id_loc :: int
  name :: string
  state :: string

record slot =
  locationId :: int
  startTimestamp :: int
  endTimestamp :: int

record appointment =
  location :: string
  start :: string
  end_time :: string

text \<open>
  A rejected promise is the left summand of a sum. \<^verbatim>\<open>fetch\<close> rejects when the request fails,
  \<^verbatim>\<open>response.json()\<close> rejects when the body is not JSON, and \<^verbatim>\<open>data.map\<close> throws a
  \<^verbatim>\<open>TypeError\<close> when the parsed body is not an array.
\<close>

datatype error = FetchError | JsonError | TypeError

text \<open>
  A JavaScript number that is the time value of a date or the difference of two: an
  integer, or NaN, which is \<open>None\<close>. The time value of the invalid date is NaN.
  Subtraction answers NaN when an operand is NaN, and every comparison with NaN is false.
\<close>

type_synonym number = "int option"

fun minus_number :: "number \<Rightarrow> number \<Rightarrow> number" where
  "minus_number (Some x) (Some y) = Some (x - y)"
| "minus_number x y = None"

fun le_number :: "number \<Rightarrow> number \<Rightarrow> bool" where
  "le_number (Some x) (Some y) = (x \<le> y)"
| "le_number x y = False"

section \<open>The location filter\<close>

text \<open>
  \<^verbatim>\<open>
  const getAllLocationIds = (locations, filter) => {
      const filteredData = locations.filter((location) => filter.includes(location.state));
      const locationIds = filteredData.map((location) => location.id);
      return locationIds;
  };
  \<close>
  On the values of the two arrays: \<^verbatim>\<open>Array.prototype.filter\<close> keeps the elements the callback
  accepts, in order; \<^verbatim>\<open>includes\<close> on an array of strings is membership.
\<close>

definition getAllLocationIds :: "location list \<Rightarrow> string list \<Rightarrow> int list" where
  "getAllLocationIds locations allow =
     (let filteredData = filter (\<lambda>location. state location \<in> set allow) locations;
          locationIds = map (\<lambda>location. id_loc location) filteredData
      in locationIds)"

subsection \<open>The filter on a store of arrays\<close>

text \<open>
  JavaScript passes arrays by reference, so whether a call leaves its arguments alone is
  a statement about the store. The store holds the arrays of each element type in a list
  of its own; a reference is an index into that list, and a new array is allocated at
  the end. The console and the list of requested URLs are the input and output of the
  process. \<^verbatim>\<open>filter\<close> and \<^verbatim>\<open>map\<close> allocate their result and write nothing else;
  \<^verbatim>\<open>includes\<close> only reads. A reference that is not allocated does not exist in
  JavaScript: the model answers \<open>None\<close> for it.
\<close>

record store =
  locationArrays :: "location list list"
  stringArrays :: "string list list"
  idArrays :: "int list list"
  console :: "string list"
  fetched :: "string list"

definition array_includes :: "store \<Rightarrow> nat \<Rightarrow> string \<Rightarrow> bool" where
  "array_includes s a x = (x \<in> set (stringArrays s ! a))"

definition array_filter :: "(location \<Rightarrow> bool) \<Rightarrow> store \<Rightarrow> nat \<Rightarrow> nat \<times> store" where
  "array_filter callback s a =
     (length (locationArrays s),
      s\<lparr>locationArrays := locationArrays s @ [filter callback (locationArrays s ! a)]\<rparr>)"

definition array_map :: "(location \<Rightarrow> int) \<Rightarrow> store \<Rightarrow> nat \<Rightarrow> nat \<times> store" where
  "array_map callback s a =
     (length (idArrays s),
      s\<lparr>idArrays := idArrays s @ [map callback (locationArrays s ! a)]\<rparr>)"

definition getAllLocationIds_store :: "store \<Rightarrow> nat \<Rightarrow> nat \<Rightarrow> (nat \<times> store) option" where
  "getAllLocationIds_store s locations allow =
     (if locations < length (locationArrays s) \<and> allow < length (stringArrays s) then
        (let (filteredData, s1) =
               array_filter (\<lambda>location. array_includes s allow (state location)) s locations;
             (locationIds, s2) = array_map (\<lambda>location. id_loc location) s1 filteredData
         in Some (locationIds, s2))
      else None)"

section \<open>The network and the platform\<close>

text \<open>
  What the script does not decide is a field of the environment: the settled result of
  the locations request (\<^verbatim>\<open>fetch\<close> followed by \<^verbatim>\<open>response.json()\<close>), the settled result
  of the \<open>k\<close>-th slots request for a limit and a location identifier, the order in
  which the slots requests settle, and the two functions of the platform on dates,
  \<^verbatim>\<open>new Date(t).toLocaleString("en-US", {timeZone: "America/New_York"})\<close> and the time
  value of \<^verbatim>\<open>new Date(string)\<close>. On the platform the first answers the string
  "Invalid Date" when \<open>t\<close> is beyond 8640000000000000 milliseconds from the epoch, and
  the second answers NaN for a string that is not a date, "Invalid Date" among them.
  Every request settles: a request that hangs is outside the model.
\<close>

record env =
  locationsResponse :: "error + location list"
  slotsResponse :: "nat \<Rightarrow> int \<Rightarrow> int \<Rightarrow> error + slot list"
  settleOrder :: "nat list"
  toLocaleString :: "int \<Rightarrow> string"
  dateParse :: "string \<Rightarrow> number"

definition getAllLocations :: "env \<Rightarrow> error + location list" where
  "getAllLocations env = (let data = locationsResponse env in data)"

section \<open>The appointment fetcher\<close>

text \<open>
  The callback of \<^verbatim>\<open>data.map\<close>: \<^verbatim>\<open>locations.find\<close> answers the first location with the
  identifier of the slot, or \<^verbatim>\<open>undefined\<close>, which is falsy.
\<close>

definition toAppointment :: "env \<Rightarrow> location list \<Rightarrow> slot \<Rightarrow> appointment" where
  "toAppointment env locations appointment =
     (let found = find (\<lambda>loc. id_loc loc = locationId appointment) locations
      in \<lparr>location = (case found of Some loc \<Rightarrow> name loc | None \<Rightarrow> ''Unknown''),
          start = toLocaleString env (startTimestamp appointment),
          end_time = toLocaleString env (endTimestamp appointment)\<rparr>)"

text \<open>
  The asynchronous callback of \<^verbatim>\<open>locationIds.map\<close>, for the \<open>k\<close>-th identifier: it
  rejects when the request or the parsing does, and otherwise holds the appointments it
  is about to push.
\<close>

definition slotsTask :: "env \<Rightarrow> location list \<Rightarrow> int \<Rightarrow> nat \<times> int \<Rightarrow> error + appointment list" where
  "slotsTask env locations limit request =
     (case slotsResponse env (fst request) limit (snd request) of
        Inl e \<Rightarrow> Inl e
      | Inr data \<Rightarrow>
          (let availableAppointments = map (toAppointment env locations) data
           in Inr availableAppointments))"

text \<open>
  All requests are started at once and settle in any order. The order is read from a
  list of choices: each choice, modulo the number of tasks still pending, names the task
  that settles next; when the choices run out the pending tasks settle in the order they
  were started. Every order of settlement is the reading of some list of choices.
\<close>

function settle :: "nat list \<Rightarrow> 'a list \<Rightarrow> 'a list" where
  "settle choices [] = []"
| "settle [] (t # pending) = t # pending"
| "settle (c # choices) (t # pending) =
     (let i = c mod length (t # pending)
      in (t # pending) ! i # settle choices (take i (t # pending) @ drop (Suc i) (t # pending)))"
  by pat_completeness auto
termination
  by (relation "measure (\<lambda>(choices, pending). length pending)") auto

text \<open>
  \<^verbatim>\<open>Promise.all\<close> rejects as soon as one task rejects, and the \<^verbatim>\<open>await\<close> throws: the
  function rejects and \<^verbatim>\<open>allAppointments\<close> is never returned. A task that fulfils has
  pushed its appointments onto \<^verbatim>\<open>allAppointments\<close>; the push runs without interruption.
\<close>

fun promiseAll :: "appointment list \<Rightarrow> (error + appointment list) list \<Rightarrow> error + appointment list" where
  "promiseAll allAppointments [] = Inr allAppointments"
| "promiseAll allAppointments (Inl e # settled) = Inl e"
| "promiseAll allAppointments (Inr availableAppointments # settled) =
     promiseAll (allAppointments @ availableAppointments) settled"

definition slotsTasks :: "env \<Rightarrow> location list \<Rightarrow> int list \<Rightarrow> int \<Rightarrow> (error + appointment list) list" where
  "slotsTasks env locations locationIds limit =
     map (slotsTask env locations limit) (enumerate 0 locationIds)"

definition getAvailableAppointments ::
  "env \<Rightarrow> location list \<Rightarrow> int list \<Rightarrow> int \<Rightarrow> error + appointment list" where
  "getAvailableAppointments env locations locationIds limit =
     promiseAll [] (settle (settleOrder env) (slotsTasks env locations locationIds limit))"

section \<open>The driver\<close>

text \<open>
  \<^verbatim>\<open>Array.prototype.sort\<close> with a comparison function is stable, and for a consistent
  comparison function its result is determined: insertion from the right, placing an
  element before the first one it does not exceed, computes it. The sort reads a
  comparison that answers NaN as \<open>+0\<close>, so an element whose comparison is NaN stays
  before the elements it is compared with; a comparison function that answers NaN is not
  consistent, and an array holding such elements is left in an order that need not be
  sorted.
\<close>

definition sortCompare :: "('a \<Rightarrow> 'a \<Rightarrow> number) \<Rightarrow> 'a \<Rightarrow> 'a \<Rightarrow> int" where
  "sortCompare comparefn a b = (case comparefn a b of None \<Rightarrow> 0 | Some v \<Rightarrow> v)"

fun sortInsert :: "('a \<Rightarrow> 'a \<Rightarrow> number) \<Rightarrow> 'a \<Rightarrow> 'a list \<Rightarrow> 'a list" where
  "sortInsert comparefn a [] = [a]"
| "sortInsert comparefn a (b # bs) =
     (if sortCompare comparefn a b > 0 then b # sortInsert comparefn a bs else a # b # bs)"

definition array_sort :: "('a \<Rightarrow> 'a \<Rightarrow> number) \<Rightarrow> 'a list \<Rightarrow> 'a list" where
  "array_sort comparefn xs = foldr (sortInsert comparefn) xs []"

text \<open>
  The comparison function of \<open>init\<close>, \<^verbatim>\<open>(a, b) => new Date(a.start) - new Date(b.start)\<close>:
  the difference of the two time values, NaN when a start string is not a date.
\<close>

definition byStart :: "env \<Rightarrow> appointment \<Rightarrow> appointment \<Rightarrow> number" where
  "byStart env a b = minus_number (dateParse env (start a)) (dateParse env (start b))"

definition logLine :: "appointment \<Rightarrow> string" where
  "logLine appointment =
     ''There is a TTP appointment available at '' @ location appointment @ '' on '' @
     start appointment @ ''!''"

definition regions :: "string list" where
  "regions = [''OH'', ''KY'', ''IN'', ''IL'', ''TN'']"

text \<open>
  \<open>init\<close> answers the lines it wrote to the console and how its promise settled. A
  rejection of either \<^verbatim>\<open>await\<close> leaves the function at once.
\<close>

definition init :: "env \<Rightarrow> string list \<times> (error + unit)" where
  "init env =
     (let out = [''Checking for appointments...''] in
      case getAllLocations env of
        Inl e \<Rightarrow> (out, Inl e)
      | Inr locations \<Rightarrow>
          (let locationIds = getAllLocationIds locations regions in
           case getAvailableAppointments env locations locationIds 1 of
             Inl e \<Rightarrow> (out, Inl e)
           | Inr appointments \<Rightarrow>
               if length appointments \<noteq> 0
               then (out @ map logLine (array_sort (byStart env) appointments), Inr ())
               else (out @ [''No appointments found.''], Inr ())))"

text \<open>
  Two functions to state properties with: the settled results of the slots requests, in
  the order the requests were started, and the slot records of one of them (none when
  it was rejected).
\<close>

definition slotsResponses :: "env \<Rightarrow> int list \<Rightarrow> int \<Rightarrow> (error + slot list) list" where
  "slotsResponses env locationIds limit =
     map (\<lambda>request. slotsResponse env (fst request) limit (snd request)) (enumerate 0 locationIds)"

fun slotsOf :: "error + slot list \<Rightarrow> slot list" where
  "slotsOf (Inl e) = []"
| "slotsOf (Inr data) = data"

section \<open>Example runs\<close>

text \<open>
  Concrete inputs on which the functions are evaluated: two locations, one slot per
  location, and the date functions of the platform restricted to the times that occur
  (1700000000000 is 14 November 2023, 22:13:20 UTC; 1600000000000 is 13 September 2020,
  12:26:40 UTC). The request for Cincinnati settles first, although its slot is the
  later one.
\<close>

definition cincinnati :: location where
  "cincinnati = \<lparr>id_loc = 1, name = ''Cincinnati'', state = ''OH''\<rparr>"

definition louisville :: location where
  "louisville = \<lparr>id_loc = 2, name = ''Louisville'', state = ''KY''\<rparr>"

definition sacramento :: location where
  "sacramento = \<lparr>id_loc = 3, name = ''Sacramento'', state = ''CA''\<rparr>"

definition indianapolis :: location where
  "indianapolis = \<lparr>id_loc = 3, name = ''Indianapolis'', state = ''IN''\<rparr>"

definition unknownville :: location where
  "unknownville = \<lparr>id_loc = 1, name = ''Unknown'', state = ''OH''\<rparr>"

definition slotAt :: "int \<Rightarrow> int \<Rightarrow> slot" where
  "slotAt i t = \<lparr>locationId = i, startTimestamp = t, endTimestamp = t + 3600000\<rparr>"

definition easternString :: "int \<Rightarrow> string" where
  "easternString t =
     (if t < - 8640000000000000 \<or> 8640000000000000 < t then ''Invalid Date''
      else if t = 1700000000000 then ''11/14/2023, 5:13:20 PM''
      else if t = 1700003600000 then ''11/14/2023, 6:13:20 PM''
      else if t = 1600000000000 then ''9/13/2020, 8:26:40 AM''
      else ''9/13/2020, 9:26:40 AM'')"

definition easternTime :: "string \<Rightarrow> number" where
  "easternTime s =
     (if s = ''11/14/2023, 5:13:20 PM'' then Some 1700000000000
      else if s = ''11/14/2023, 6:13:20 PM'' then Some 1700003600000
      else if s = ''9/13/2020, 8:26:40 AM'' then Some 1600000000000
      else if s = ''9/13/2020, 9:26:40 AM'' then Some 1600003600000
      else None)"

definition exampleEnv :: env where
  "exampleEnv =
     \<lparr>locationsResponse = Inr [cincinnati, louisville],
      slotsResponse = (\<lambda>k limit locationId.
        if locationId = 1 then Inr [slotAt 1 1700000000000]
        else Inr [slotAt locationId 1600000000000]),
      settleOrder = [0],
      toLocaleString = easternString,
      dateParse = easternTime\<rparr>"

text \<open>The same run with the request for Louisville rejected.\<close>

definition rejectingEnv :: env where
  "rejectingEnv =
     exampleEnv\<lparr>slotsResponse := (\<lambda>k limit locationId.
        if locationId = 2 then Inl FetchError else slotsResponse exampleEnv k limit locationId)\<rparr>"

text \<open>A run in which no location is in an allowed region.\<close>

definition farEnv :: env where
  "farEnv = exampleEnv\<lparr>locationsResponse := Inr [sacramento]\<rparr>"

text \<open>
  A run with three locations in which the slot of the second one carries a timestamp
  beyond the range of dates (10000000000000000), and the requests settle in the order
  they were started.
\<close>

definition invalidEnv :: env where
  "invalidEnv =
     exampleEnv\<lparr>locationsResponse := Inr [cincinnati, louisville, indianapolis],
       slotsResponse := (\<lambda>k limit locationId.
         if locationId = 2 then Inr [slotAt 2 10000000000000000]
         else slotsResponse exampleEnv k limit locationId),
       settleOrder := []\<rparr>"

text \<open>A store holding the two locations, the allow-list OH and the line already on the console.\<close>

definition exampleStore :: store where
  "exampleStore =
     \<lparr>locationArrays = [[cincinnati, louisville]], stringArrays = [[''OH'']], idArrays = [],
      console = [''Starting appointment checker...''], fetched = []\<rparr>"

section \<open>Properties of the location filter\<close>

text \<open>
  Claim C1. Every identifier returned by \<open>getAllLocationIds L F\<close> is the identifier of a
  location of \<open>L\<close> whose state is in \<open>F\<close>, and the identifier of every such location is
  returned: the returned identifiers are exactly the image of the locations of \<open>L\<close> with
  a state in \<open>F\<close>. For the two locations Cincinnati (1, OH) and Louisville (2, KY) and the
  allow-list OH the result is the list holding 1.
\<close>

theorem getAllLocationIds_exact:
  "set (getAllLocationIds L F) = id_loc ` {l. l \<in> set L \<and> state l \<in> set F} \<and>
   getAllLocationIds
     [\<lparr>id_loc = 1, name = ''Cincinnati'', state = ''OH''\<rparr>,
      \<lparr>id_loc = 2, name = ''Louisville'', state = ''KY''\<rparr>] [''OH''] = [1]"
  by (auto simp add: getAllLocationIds_def)

text \<open>
  Claim C6. The identifiers returned by \<open>getAllLocationIds L F\<close> stand in the order of
  their locations in \<open>L\<close>: the result is a subsequence of the identifiers of \<open>L\<close>.
\<close>

theorem getAllLocationIds_subseq:
  "subseq (getAllLocationIds L F) (map id_loc L)"
  by (simp add: getAllLocationIds_def subseq_map)

subsection \<open>The filter on the store\<close>

text \<open>
  A call that answers has valid references, allocates the result at the end of the
  identifier arrays and changes nothing else but the two allocations; its result holds
  the value \<open>getAllLocationIds\<close> computes from the two arrays.
\<close>

lemma getAllLocationIds_store_Some:
  assumes "getAllLocationIds_store s locations allow = Some (r, s')"
  shows "locations < length (locationArrays s)" and "allow < length (stringArrays s)"
    and "r = length (idArrays s)"
    and "s' = s\<lparr>locationArrays := locationArrays s @
                   [filter (\<lambda>location. state location \<in> set (stringArrays s ! allow))
                      (locationArrays s ! locations)],
                 idArrays := idArrays s @
                   [getAllLocationIds (locationArrays s ! locations) (stringArrays s ! allow)]\<rparr>"
  using assms
  by (auto simp add: getAllLocationIds_store_def getAllLocationIds_def array_filter_def
      array_map_def array_includes_def Let_def nth_append split: if_splits)

lemma getAllLocationIds_store_defined:
  assumes "locations < length (locationArrays s)" and "allow < length (stringArrays s)"
  shows "\<exists>s'. getAllLocationIds_store s locations allow = Some (length (idArrays s), s')"
  using assms
  by (simp add: getAllLocationIds_store_def array_filter_def array_map_def Let_def)

text \<open>
  Claim C8. \<open>getAllLocationIds\<close> has no side effect and does no input or output: after
  the call the location array and the allow-list hold what they held, as does every
  array that existed before; the console and the list of requests are unchanged; and
  the array returned is a new one, allocated by the call, holding the filtered
  identifiers.
\<close>

theorem getAllLocationIds_store_frame:
  assumes "getAllLocationIds_store s locations allow = Some (r, s')"
  shows "locationArrays s' ! locations = locationArrays s ! locations \<and>
         stringArrays s' ! allow = stringArrays s ! allow \<and>
         take (length (locationArrays s)) (locationArrays s') = locationArrays s \<and>
         stringArrays s' = stringArrays s \<and>
         take (length (idArrays s)) (idArrays s') = idArrays s \<and>
         console s' = console s \<and> fetched s' = fetched s \<and>
         length (idArrays s) \<le> r \<and> r < length (idArrays s') \<and>
         idArrays s' ! r = getAllLocationIds (locationArrays s ! locations) (stringArrays s ! allow)"
  using getAllLocationIds_store_Some [OF assms]
  by (simp add: nth_append)

theorem getAllLocationIds_store_frame_witness:
  "getAllLocationIds_store exampleStore 0 0 =
     Some (0, exampleStore\<lparr>locationArrays := [[cincinnati, louisville], [cincinnati]], idArrays := [[1]]\<rparr>) \<and>
   locationArrays (exampleStore\<lparr>locationArrays := [[cincinnati, louisville], [cincinnati]], idArrays := [[1]]\<rparr>) ! 0
     = [cincinnati, louisville] \<and>
   stringArrays (exampleStore\<lparr>locationArrays := [[cincinnati, louisville], [cincinnati]], idArrays := [[1]]\<rparr>) ! 0
     = [''OH''] \<and>
   console (exampleStore\<lparr>locationArrays := [[cincinnati, louisville], [cincinnati]], idArrays := [[1]]\<rparr>)
     = [''Starting appointment checker...'']"
proof -
  have h: "getAllLocationIds_store exampleStore 0 0 =
     Some (0, exampleStore\<lparr>locationArrays := [[cincinnati, louisville], [cincinnati]], idArrays := [[1]]\<rparr>)"
    by (simp add: getAllLocationIds_store_def array_filter_def array_map_def array_includes_def
        exampleStore_def cincinnati_def louisville_def)
  from getAllLocationIds_store_frame [OF h] h show ?thesis
    by (simp add: exampleStore_def)
qed

text \<open>
  Claim C7. Calling \<open>getAllLocationIds\<close> again on the same two arrays answers a list
  equal to the first one, element by element and in the same order, and the first
  result is still what it was; the store after the second call again satisfies the
  hypothesis, so the same holds for every further call.
\<close>

theorem getAllLocationIds_store_repeat:
  assumes "getAllLocationIds_store s locations allow = Some (r, s')"
  shows "\<exists>r2 s2. getAllLocationIds_store s' locations allow = Some (r2, s2) \<and>
           idArrays s2 ! r2 = idArrays s' ! r \<and> idArrays s2 ! r = idArrays s' ! r \<and>
           idArrays s2 ! r2 = getAllLocationIds (locationArrays s ! locations) (stringArrays s ! allow)"
proof -
  note first = getAllLocationIds_store_Some [OF assms]
  have l: "locations < length (locationArrays s')" and a: "allow < length (stringArrays s')"
    using first by simp_all
  from getAllLocationIds_store_defined [OF l a]
  obtain s2 where second: "getAllLocationIds_store s' locations allow = Some (length (idArrays s'), s2)"
    by blast
  note snd = getAllLocationIds_store_Some [OF second]
  have same: "locationArrays s' ! locations = locationArrays s ! locations"
    "stringArrays s' ! allow = stringArrays s ! allow"
    using first by (simp_all add: nth_append)
  have r1: "idArrays s' ! r = getAllLocationIds (locationArrays s ! locations) (stringArrays s ! allow)"
    using first by simp
  have r2: "idArrays s2 ! length (idArrays s') =
      getAllLocationIds (locationArrays s ! locations) (stringArrays s ! allow)"
    using snd(4) same by simp
  have r3: "idArrays s2 ! r = idArrays s' ! r"
    using snd(4) first(3,4) by (simp add: nth_append)
  from second r1 r2 r3 show ?thesis by simp
qed

theorem getAllLocationIds_store_repeat_witness:
  "getAllLocationIds_store exampleStore 0 0 =
     Some (0, exampleStore\<lparr>locationArrays := [[cincinnati, louisville], [cincinnati]], idArrays := [[1]]\<rparr>) \<and>
   getAllLocationIds_store
       (exampleStore\<lparr>locationArrays := [[cincinnati, louisville], [cincinnati]], idArrays := [[1]]\<rparr>) 0 0 =
     Some (1, exampleStore\<lparr>locationArrays := [[cincinnati, louisville], [cincinnati], [cincinnati]],
                           idArrays := [[1], [1]]\<rparr>)"
proof -
  have h: "getAllLocationIds_store exampleStore 0 0 =
     Some (0, exampleStore\<lparr>locationArrays := [[cincinnati, louisville], [cincinnati]], idArrays := [[1]]\<rparr>)"
    by (simp add: getAllLocationIds_store_def array_filter_def array_map_def array_includes_def
        exampleStore_def cincinnati_def louisville_def)
  from getAllLocationIds_store_repeat [OF h] h show ?thesis
    by (simp add: getAllLocationIds_store_def array_filter_def array_map_def array_includes_def
        exampleStore_def cincinnati_def louisville_def)
qed

section \<open>Properties of the appointment fetcher\<close>

subsection \<open>The order of settlement\<close>

text \<open>
  Settling permutes the tasks, and every permutation of the tasks is an order of
  settlement.
\<close>

lemma settle_mset: "mset (settle choices ts) = mset ts"
proof (induction choices ts rule: settle.induct)
  case (3 c choices t pending)
  define l where "l = t # pending"
  define i where "i = c mod length l"
  have i: "i < length l" by (simp add: i_def l_def)
  have IH: "mset (settle choices (take i l @ drop (Suc i) l)) = mset (take i l @ drop (Suc i) l)"
    using "3.IH" [of i] by (simp only: i_def l_def)
  have step: "settle (c # choices) (t # pending) = l ! i # settle choices (take i l @ drop (Suc i) l)"
    by (simp only: settle.simps Let_def i_def l_def)
  have "mset l = mset (take i l @ l ! i # drop (Suc i) l)"
    using id_take_nth_drop [OF i] by simp
  also have "\<dots> = add_mset (l ! i) (mset (take i l @ drop (Suc i) l))" by simp
  finally have "mset l = add_mset (l ! i) (mset (take i l @ drop (Suc i) l))" .
  moreover have "mset (settle (c # choices) (t # pending)) =
      add_mset (l ! i) (mset (take i l @ drop (Suc i) l))"
    unfolding step using IH by simp
  ultimately show ?case by (simp only: l_def)
qed simp_all

lemma settle_all_orders: "mset ys = mset ts \<Longrightarrow> \<exists>choices. settle choices ts = ys"
proof (induction ys arbitrary: ts)
  case Nil
  then show ?case by simp
next
  case (Cons y ys)
  then have "y \<in> set ts" by (metis list.set_intros(1) set_mset_mset)
  then obtain i where i: "i < length ts" "ts ! i = y" by (auto simp: in_set_conv_nth)
  let ?r = "take i ts @ drop (Suc i) ts"
  have "mset ts = mset ?r + {#y#}" using id_take_nth_drop [OF i(1)] i(2)
    by (metis add_mset_add_single mset.simps(2) mset_append union_mset_add_mset_right)
  then have "mset ys = mset ?r" using Cons.prems by simp
  then obtain cs where cs: "settle cs ?r = ys" using Cons.IH by blast
  obtain t pending where ts: "ts = t # pending" using i(1) by (cases ts) auto
  have "i mod length ts = i" using i(1) by simp
  then have "settle (i # cs) ts = ts ! i # settle cs ?r"
    unfolding ts by (simp only: settle.simps Let_def)
  then have "settle (i # cs) ts = y # ys" using i cs by simp
  then show ?case by blast
qed

lemma settle_set: "set (settle choices ts) = set ts"
  by (metis settle_mset set_mset_mset)

subsection \<open>Waiting for all tasks\<close>

lemma promiseAll_rejects:
  "Inl e \<in> set rs \<Longrightarrow> \<exists>e'. promiseAll acc rs = Inl e' \<and> Inl e' \<in> set rs"
  by (induction acc rs rule: promiseAll.induct) auto

lemma promiseAll_fulfils:
  "promiseAll acc rs = Inr apps \<Longrightarrow> rs = map Inr (map projr rs) \<and> apps = acc @ concat (map projr rs)"
  by (induction acc rs rule: promiseAll.induct) auto

lemma slotsTasks_responses:
  "slotsTasks env locations locationIds limit =
     map (map_sum (\<lambda>e. e) (map (toAppointment env locations))) (slotsResponses env locationIds limit)"
  by (simp add: slotsTasks_def slotsResponses_def slotsTask_def split: sum.split)

lemma projr_task:
  "projr (map_sum f (map g) r) = map g (slotsOf r) \<or> isl r"
  by (cases r) simp_all

lemma mset_concat_map:
  "mset (concat (map f ts)) = sum_mset (image_mset (\<lambda>t. mset (f t)) (mset ts))"
  by (induction ts) simp_all

lemma concat_settle_mset:
  "mset (concat (map f (settle choices ts))) = mset (concat (map f ts))"
  by (simp only: mset_concat_map settle_mset)

subsection \<open>The aggregate\<close>

lemma getAvailableAppointments_fulfils:
  assumes "getAvailableAppointments env locations locationIds limit = Inr appointments"
  shows "mset appointments =
     image_mset (toAppointment env locations)
       (mset (concat (map slotsOf (slotsResponses env locationIds limit))))"
    and "\<forall>r \<in> set (slotsResponses env locationIds limit). \<not> isl r"
proof -
  let ?ts = "slotsTasks env locations locationIds limit"
  let ?st = "settle (settleOrder env) ?ts"
  let ?rs = "slotsResponses env locationIds limit"
  from assms have p: "promiseAll [] ?st = Inr appointments"
    by (simp add: getAvailableAppointments_def)
  from promiseAll_fulfils [OF p]
  have all: "?st = map Inr (map projr ?st)" and apps: "appointments = concat (map projr ?st)"
    by simp_all
  have "\<forall>t \<in> set ?st. \<not> isl t"
  proof
    fix t assume "t \<in> set ?st"
    then have "t \<in> set (map Inr (map projr ?st))" using all by simp
    then show "\<not> isl t" by auto
  qed
  then have noisl: "\<forall>t \<in> set ?ts. \<not> isl t"
    by (simp only: settle_set)
  show r: "\<forall>r \<in> set ?rs. \<not> isl r"
  proof
    fix r assume "r \<in> set ?rs"
    then have "map_sum (\<lambda>e. e) (map (toAppointment env locations)) r \<in> set ?ts"
      by (simp add: slotsTasks_responses)
    with noisl show "\<not> isl r" by (cases r) auto
  qed
  have "mset appointments = mset (concat (map projr ?ts))"
    unfolding apps by (rule concat_settle_mset)
  also have "map projr ?ts = map (\<lambda>r. map (toAppointment env locations) (slotsOf r)) ?rs"
    unfolding slotsTasks_responses using r projr_task by auto
  also have "concat \<dots> = map (toAppointment env locations) (concat (map slotsOf ?rs))"
    by (simp add: map_concat comp_def)
  finally show "mset appointments =
     image_mset (toAppointment env locations) (mset (concat (map slotsOf ?rs)))"
    by simp
qed

lemma getAvailableAppointments_rejects:
  assumes "Inl e \<in> set (slotsResponses env locationIds limit)"
  shows "\<exists>e'. getAvailableAppointments env locations locationIds limit = Inl e' \<and>
     Inl e' \<in> set (slotsResponses env locationIds limit)"
proof -
  let ?ts = "slotsTasks env locations locationIds limit"
  let ?st = "settle (settleOrder env) ?ts"
  let ?rs = "slotsResponses env locationIds limit"
  have sets: "set ?st = set ?ts" by (rule settle_set)
  from assms have "map_sum (\<lambda>e. e) (map (toAppointment env locations)) (Inl e) \<in> set ?ts"
    unfolding slotsTasks_responses by (metis imageI set_map)
  then have "Inl e \<in> set ?st" using sets by simp
  from promiseAll_rejects [OF this]
  obtain e' where e': "promiseAll [] ?st = Inl e'" "Inl e' \<in> set ?st" by blast
  from e'(2) have "Inl e' \<in> set ?ts" using sets by simp
  then obtain r where r: "r \<in> set ?rs"
    and eq: "Inl e' = map_sum (\<lambda>e. e) (map (toAppointment env locations)) r"
    unfolding slotsTasks_responses by auto
  from eq have "r = Inl e'" by (cases r) simp_all
  with r have "Inl e' \<in> set ?rs" by simp
  with e'(1) show ?thesis by (auto simp: getAvailableAppointments_def)
qed

lemmas example_defs = exampleEnv_def rejectingEnv_def farEnv_def invalidEnv_def cincinnati_def
  louisville_def sacramento_def indianapolis_def unknownville_def slotAt_def easternString_def
  easternTime_def

lemmas run_defs = getAllLocations_def getAllLocationIds_def regions_def
  getAvailableAppointments_def slotsTasks_def slotsTask_def toAppointment_def Let_def

text \<open>
  Claim C4. If one of the slots requests is rejected, \<open>getAvailableAppointments\<close> is
  rejected, with the error of a rejected request, whatever the order of settlement and
  whatever the other requests answered: it returns no list of appointments.
\<close>

theorem getAvailableAppointments_all_or_nothing:
  assumes "Inl e \<in> set (slotsResponses env locationIds limit)"
  shows "(\<exists>e'. getAvailableAppointments env locations locationIds limit = Inl e' \<and>
            Inl e' \<in> set (slotsResponses env locationIds limit)) \<and>
         (\<forall>appointments. getAvailableAppointments env locations locationIds limit \<noteq> Inr appointments)"
  using getAvailableAppointments_rejects [OF assms, of locations] by auto

theorem getAvailableAppointments_all_or_nothing_witness:
  "Inl FetchError \<in> set (slotsResponses rejectingEnv [1, 2] 1) \<and>
   getAvailableAppointments rejectingEnv [cincinnati, louisville] [1, 2] 1 = Inl FetchError"
proof -
  have h: "Inl FetchError \<in> set (slotsResponses rejectingEnv [1, 2] 1)"
    by (simp add: slotsResponses_def rejectingEnv_def exampleEnv_def)
  have "slotsResponses rejectingEnv [1, 2] 1 = [Inr [slotAt 1 1700000000000], Inl FetchError]"
    by (simp add: slotsResponses_def rejectingEnv_def exampleEnv_def)
  with getAvailableAppointments_all_or_nothing [OF h, of "[cincinnati, louisville]"]
  show ?thesis using h by auto
qed

text \<open>
  Claim C10. When \<open>getAvailableAppointments\<close> fulfils, the appointments it returns are
  as many as the slot records of all responses together, and as a multiset they are the
  image of those slot records: each slot gives one appointment, none is dropped and
  none is duplicated.
\<close>

theorem getAvailableAppointments_one_per_slot:
  assumes "getAvailableAppointments env locations locationIds limit = Inr appointments"
  shows "length appointments = length (concat (map slotsOf (slotsResponses env locationIds limit))) \<and>
         mset appointments =
           image_mset (toAppointment env locations)
             (mset (concat (map slotsOf (slotsResponses env locationIds limit))))"
proof -
  have m: "mset appointments =
           image_mset (toAppointment env locations)
             (mset (concat (map slotsOf (slotsResponses env locationIds limit))))"
    by (rule getAvailableAppointments_fulfils(1) [OF assms])
  have "length appointments = size (mset appointments)" by simp
  also have "\<dots> = length (concat (map slotsOf (slotsResponses env locationIds limit)))"
    unfolding m by simp
  finally show ?thesis using m by simp
qed

theorem getAvailableAppointments_one_per_slot_witness:
  "getAvailableAppointments exampleEnv [cincinnati, louisville] [1, 2] 1 =
     Inr [\<lparr>location = ''Cincinnati'', start = ''11/14/2023, 5:13:20 PM'', end_time = ''11/14/2023, 6:13:20 PM''\<rparr>,
          \<lparr>location = ''Louisville'', start = ''9/13/2020, 8:26:40 AM'', end_time = ''9/13/2020, 9:26:40 AM''\<rparr>] \<and>
   concat (map slotsOf (slotsResponses exampleEnv [1, 2] 1)) = [slotAt 1 1700000000000, slotAt 2 1600000000000] \<and>
   length [\<lparr>location = ''Cincinnati'', start = ''11/14/2023, 5:13:20 PM'', end_time = ''11/14/2023, 6:13:20 PM''\<rparr>,
          \<lparr>location = ''Louisville'', start = ''9/13/2020, 8:26:40 AM'', end_time = ''9/13/2020, 9:26:40 AM''\<rparr>] =
     length (concat (map slotsOf (slotsResponses exampleEnv [1, 2] 1)))"
proof -
  have h: "getAvailableAppointments exampleEnv [cincinnati, louisville] [1, 2] 1 =
     Inr [\<lparr>location = ''Cincinnati'', start = ''11/14/2023, 5:13:20 PM'', end_time = ''11/14/2023, 6:13:20 PM''\<rparr>,
          \<lparr>location = ''Louisville'', start = ''9/13/2020, 8:26:40 AM'', end_time = ''9/13/2020, 9:26:40 AM''\<rparr>]"
    by (simp add: getAvailableAppointments_def slotsTasks_def slotsTask_def toAppointment_def
        example_defs Let_def)
  have r: "concat (map slotsOf (slotsResponses exampleEnv [1, 2] 1)) = [slotAt 1 1700000000000, slotAt 2 1600000000000]"
    by (simp add: slotsResponses_def exampleEnv_def)
  from getAvailableAppointments_one_per_slot [OF h] h r show ?thesis by simp
qed

subsection \<open>The name of the location\<close>

lemma find_first_match:
  "find P xs = Some x \<Longrightarrow> x \<in> set xs \<and> P x"
  by (auto simp: find_Some_iff)

lemma toAppointment_location:
  "location (toAppointment env locations s) =
     (case find (\<lambda>loc. id_loc loc = locationId s) locations of
        Some loc \<Rightarrow> name loc | None \<Rightarrow> ''Unknown'')"
  by (simp add: toAppointment_def)

lemma toAppointment_location_cases:
  "((\<exists>l \<in> set locations. id_loc l = locationId s \<and> location (toAppointment env locations s) = name l) \<or>
      location (toAppointment env locations s) = ''Unknown'') \<and>
   (location (toAppointment env locations s) = ''Unknown'' \<longleftrightarrow>
      (\<forall>l \<in> set locations. id_loc l \<noteq> locationId s) \<or>
      (\<exists>l. find (\<lambda>loc. id_loc loc = locationId s) locations = Some l \<and> name l = ''Unknown''))"
proof (cases "find (\<lambda>loc. id_loc loc = locationId s) locations")
  case None
  then have "\<forall>l \<in> set locations. id_loc l \<noteq> locationId s"
    by (simp add: find_None_iff)
  with None show ?thesis by (simp add: toAppointment_location)
next
  case (Some l)
  from find_first_match [OF Some] have "l \<in> set locations" "id_loc l = locationId s"
    by simp_all
  with Some show ?thesis
    by (auto simp: toAppointment_location)
qed

text \<open>
  Claim C2, as amended. Every appointment \<open>getAvailableAppointments\<close> returns is built
  from a slot of a response, and its \<open>location\<close> is the name of a location of the
  collection whose identifier is the slot's \<open>locationId\<close>, or the string Unknown. It is
  Unknown exactly when no location of the collection has that identifier or the first
  location with that identifier is itself named Unknown.
\<close>

theorem getAvailableAppointments_location:
  assumes "getAvailableAppointments env locations locationIds limit = Inr appointments"
    and "a \<in> set appointments"
  shows "\<exists>s \<in> set (concat (map slotsOf (slotsResponses env locationIds limit))).
           a = toAppointment env locations s \<and>
           ((\<exists>l \<in> set locations. id_loc l = locationId s \<and> location a = name l) \<or>
              location a = ''Unknown'') \<and>
           (location a = ''Unknown'' \<longleftrightarrow>
              (\<forall>l \<in> set locations. id_loc l \<noteq> locationId s) \<or>
              (\<exists>l. find (\<lambda>loc. id_loc loc = locationId s) locations = Some l \<and> name l = ''Unknown''))"
proof -
  from assms(2) have "a \<in># mset appointments" by simp
  then have "a \<in># image_mset (toAppointment env locations)
       (mset (concat (map slotsOf (slotsResponses env locationIds limit))))"
    by (simp only: getAvailableAppointments_fulfils(1) [OF assms(1)])
  then obtain s where s: "s \<in> set (concat (map slotsOf (slotsResponses env locationIds limit)))"
    and a: "a = toAppointment env locations s"
    by auto
  note c = toAppointment_location_cases [of locations s env, folded a]
  show ?thesis
  proof (rule bexI [OF _ s], intro conjI)
    show "a = toAppointment env locations s" by (rule a)
  next
    show "(\<exists>l \<in> set locations. id_loc l = locationId s \<and> location a = name l) \<or>
              location a = ''Unknown''"
      by (rule conjunct1 [OF c])
  next
    show "location a = ''Unknown'' \<longleftrightarrow>
              (\<forall>l \<in> set locations. id_loc l \<noteq> locationId s) \<or>
              (\<exists>l. find (\<lambda>loc. id_loc loc = locationId s) locations = Some l \<and> name l = ''Unknown'')"
      by (rule conjunct2 [OF c])
  qed
qed

theorem getAvailableAppointments_location_witness:
  "getAvailableAppointments exampleEnv [cincinnati] [1, 2] 1 =
     Inr [\<lparr>location = ''Cincinnati'', start = ''11/14/2023, 5:13:20 PM'', end_time = ''11/14/2023, 6:13:20 PM''\<rparr>,
          \<lparr>location = ''Unknown'', start = ''9/13/2020, 8:26:40 AM'', end_time = ''9/13/2020, 9:26:40 AM''\<rparr>] \<and>
   (\<exists>s \<in> set (concat (map slotsOf (slotsResponses exampleEnv [1, 2] 1))).
      \<lparr>location = ''Unknown'', start = ''9/13/2020, 8:26:40 AM'', end_time = ''9/13/2020, 9:26:40 AM''\<rparr>
        = toAppointment exampleEnv [cincinnati] s \<and> locationId s \<noteq> id_loc cincinnati)"
proof -
  let ?a = "\<lparr>location = ''Unknown'', start = ''9/13/2020, 8:26:40 AM'', end_time = ''9/13/2020, 9:26:40 AM''\<rparr>"
  have h: "getAvailableAppointments exampleEnv [cincinnati] [1, 2] 1 =
     Inr [\<lparr>location = ''Cincinnati'', start = ''11/14/2023, 5:13:20 PM'', end_time = ''11/14/2023, 6:13:20 PM''\<rparr>, ?a]"
    by (simp add: getAvailableAppointments_def slotsTasks_def slotsTask_def toAppointment_def
        example_defs Let_def)
  have m: "?a \<in> set [\<lparr>location = ''Cincinnati'', start = ''11/14/2023, 5:13:20 PM'', end_time = ''11/14/2023, 6:13:20 PM''\<rparr>, ?a]"
    by simp
  from getAvailableAppointments_location [OF h m] h show ?thesis
    by (auto simp: cincinnati_def)
qed

text \<open>
  The claim as stated, that the field is Unknown only if no location has the slot's
  identifier, fails for a location whose name is the string Unknown: the appointment
  built from a slot at that location carries Unknown, and the location has the
  identifier of the slot.
\<close>

theorem getAvailableAppointments_location_counterexample:
  "getAvailableAppointments exampleEnv [unknownville] [1] 1 =
     Inr [toAppointment exampleEnv [unknownville] (slotAt 1 1700000000000)] \<and>
   slotsResponses exampleEnv [1] 1 = [Inr [slotAt 1 1700000000000]] \<and>
   location (toAppointment exampleEnv [unknownville] (slotAt 1 1700000000000)) = ''Unknown'' \<and>
   id_loc unknownville = locationId (slotAt 1 1700000000000)"
  by (simp add: getAvailableAppointments_def slotsTasks_def slotsTask_def toAppointment_def
        slotsResponses_def example_defs Let_def)

section \<open>Properties of the driver\<close>

subsection \<open>Sorting\<close>

text \<open>
  \<open>array_sort\<close> permutes. With the difference of two integer keys as comparison function
  it is the stable sort by that key of the list library; with the difference of two
  keys that may be NaN it sorts the lists none of whose keys is NaN.
\<close>

lemma sortInsert_mset: "mset (sortInsert comparefn a bs) = add_mset a (mset bs)"
  by (induction bs) simp_all

lemma array_sort_mset: "mset (array_sort comparefn xs) = mset xs"
  by (induction xs) (simp_all add: array_sort_def sortInsert_mset)

lemma sortInsert_set: "set (sortInsert comparefn a bs) = insert a (set bs)"
  by (metis sortInsert_mset set_mset_mset set_mset_add_mset_insert)

lemma array_sort_set: "set (array_sort comparefn xs) = set xs"
  by (metis array_sort_mset set_mset_mset)

lemma sortInsert_insort_key:
  "sortInsert (\<lambda>a b. Some (key a - key b)) a bs = insort_key key a bs" for key :: "'a \<Rightarrow> int"
  by (induction bs) (auto simp add: sortCompare_def)

lemma array_sort_sort_key:
  "array_sort (\<lambda>a b. Some (key a - key b)) xs = sort_key key xs" for key :: "'a \<Rightarrow> int"
  by (induction xs) (simp_all add: array_sort_def sortInsert_insort_key)

lemma le_number_trans: "le_number x y \<Longrightarrow> le_number y z \<Longrightarrow> le_number x z"
  by (cases x; cases y; cases z) simp_all

lemma sortCompare_minus:
  "key a = Some x \<Longrightarrow> key b = Some y \<Longrightarrow>
     sortCompare (\<lambda>a b. minus_number (key a) (key b)) a b = x - y"
  by (simp add: sortCompare_def)

lemma sortInsert_sorted:
  fixes key :: "'a \<Rightarrow> number"
  assumes "key a \<noteq> None" and "\<forall>b \<in> set bs. key b \<noteq> None"
    and "sorted_wrt le_number (map key bs)"
  shows "sorted_wrt le_number (map key (sortInsert (\<lambda>a b. minus_number (key a) (key b)) a bs))"
  using assms
proof (induction bs)
  case Nil
  then show ?case by simp
next
  case (Cons b bs)
  from Cons.prems obtain x y where x: "key a = Some x" and y: "key b = Some y" by auto
  note c = sortCompare_minus [of key, OF x y]
  show ?case
  proof (cases "x - y > 0")
    case True
    have "sorted_wrt le_number (map key (sortInsert (\<lambda>a b. minus_number (key a) (key b)) a bs))"
      using Cons by simp
    moreover have "le_number (key b) (key a)" using True x y by simp
    ultimately show ?thesis using True c Cons.prems by (auto simp add: sortInsert_set)
  next
    case False
    then have ab: "le_number (key a) (key b)" using x y by simp
    have "\<forall>z \<in> set bs. le_number (key a) (key z)"
      using Cons.prems(3) le_number_trans [OF ab] by auto
    then show ?thesis using False c ab Cons.prems(3) by simp
  qed
qed

lemma array_sort_sorted:
  fixes key :: "'a \<Rightarrow> number"
  assumes "\<forall>x \<in> set xs. key x \<noteq> None"
  shows "sorted_wrt le_number (map key (array_sort (\<lambda>a b. minus_number (key a) (key b)) xs))"
  using assms
proof (induction xs)
  case Nil
  then show ?case by (simp add: array_sort_def)
next
  case (Cons x xs)
  have s: "array_sort (\<lambda>a b. minus_number (key a) (key b)) (x # xs) =
      sortInsert (\<lambda>a b. minus_number (key a) (key b)) x
        (array_sort (\<lambda>a b. minus_number (key a) (key b)) xs)"
    by (simp add: array_sort_def)
  show ?case unfolding s
  proof (rule sortInsert_sorted)
    show "key x \<noteq> None" using Cons.prems by simp
    show "\<forall>b \<in> set (array_sort (\<lambda>a b. minus_number (key a) (key b)) xs). key b \<noteq> None"
      using Cons.prems by (simp add: array_sort_set)
    show "sorted_wrt le_number (map key (array_sort (\<lambda>a b. minus_number (key a) (key b)) xs))"
      using Cons by simp
  qed
qed

lemma byStart_key:
  "byStart env = (\<lambda>a b. minus_number (dateParse env (start a)) (dateParse env (start b)))"
  by (simp add: byStart_def fun_eq_iff)

lemma array_sort_byStart:
  assumes "\<forall>a \<in> set appointments. dateParse env (start a) \<noteq> None"
  shows "sorted_wrt le_number
     (map (\<lambda>a. dateParse env (start a)) (array_sort (byStart env) appointments))"
  unfolding byStart_key using assms by (rule array_sort_sorted)

lemma array_sort_length: "length (array_sort comparefn xs) = length xs"
  by (metis array_sort_mset size_mset)

subsection \<open>What is printed\<close>

lemma logLine_not_none: "logLine a \<noteq> ''No appointments found.''"
  by (simp add: logLine_def)

lemma logLine_not_banner: "logLine a \<noteq> ''Checking for appointments...''"
  by (simp add: logLine_def)

lemma init_appointments:
  assumes "getAllLocations env = Inr locations"
    and "getAvailableAppointments env locations (getAllLocationIds locations regions) 1 = Inr appointments"
  shows "init env =
    (if appointments = [] then ([''Checking for appointments...'', ''No appointments found.''], Inr ())
     else (''Checking for appointments...'' # map logLine (array_sort (byStart env) appointments), Inr ()))"
  using assms by (simp add: init_def Let_def)

lemma init_empty:
  assumes "getAllLocations env = Inr locations"
    and "getAvailableAppointments env locations (getAllLocationIds locations regions) 1 = Inr []"
  shows "fst (init env) = [''Checking for appointments...'', ''No appointments found.'']"
  using init_appointments [OF assms] by simp

lemma init_nonempty:
  assumes "getAllLocations env = Inr locations"
    and "getAvailableAppointments env locations (getAllLocationIds locations regions) 1 = Inr appointments"
    and "appointments \<noteq> []"
  shows "fst (init env) =
     ''Checking for appointments...'' # map logLine (array_sort (byStart env) appointments)"
  using init_appointments [OF assms(1,2)] assms(3) by simp

lemma none_not_logged: "''No appointments found.'' \<notin> set (''Checking for appointments...'' # map logLine xs)"
proof
  assume "''No appointments found.'' \<in> set (''Checking for appointments...'' # map logLine xs)"
  then have "''No appointments found.'' \<in> set (map logLine xs)" by simp
  then obtain a where "logLine a = ''No appointments found.''" by auto
  with logLine_not_none show False by blast
qed

lemma no_line_logged: "logLine a \<notin> set [''Checking for appointments...'', ''No appointments found.'']"
  using logLine_not_none [of a] logLine_not_banner [of a] by simp

text \<open>
  Claim C3, as amended. In a run whose aggregated list of appointments is not empty and
  in which the \<open>start\<close> string of every appointment parses to a date that is not the
  invalid date, \<open>init\<close> prints, after its first line, one line per element of the
  sorted array, which is a permutation of the aggregate and non-decreasing in the time
  value parsed from the \<open>start\<close> string of each appointment.
\<close>

theorem init_prints_sorted:
  assumes "getAllLocations env = Inr locations"
    and "getAvailableAppointments env locations (getAllLocationIds locations regions) 1 = Inr appointments"
    and "appointments \<noteq> []"
    and "\<forall>a \<in> set appointments. dateParse env (start a) \<noteq> None"
  shows "fst (init env) =
           ''Checking for appointments...'' # map logLine (array_sort (byStart env) appointments) \<and>
         mset (array_sort (byStart env) appointments) = mset appointments \<and>
         sorted_wrt le_number
           (map (\<lambda>a. dateParse env (start a)) (array_sort (byStart env) appointments))"
  using init_nonempty [OF assms(1,2,3)] array_sort_byStart [OF assms(4)]
  by (simp add: array_sort_mset)

theorem init_prints_sorted_witness:
  "getAllLocations exampleEnv = Inr [cincinnati, louisville] \<and>
   getAvailableAppointments exampleEnv [cincinnati, louisville]
       (getAllLocationIds [cincinnati, louisville] regions) 1 =
     Inr [toAppointment exampleEnv [cincinnati, louisville] (slotAt 1 1700000000000),
          toAppointment exampleEnv [cincinnati, louisville] (slotAt 2 1600000000000)] \<and>
   dateParse exampleEnv
     (start (toAppointment exampleEnv [cincinnati, louisville] (slotAt 1 1700000000000))) =
     Some 1700000000000 \<and>
   dateParse exampleEnv
     (start (toAppointment exampleEnv [cincinnati, louisville] (slotAt 2 1600000000000))) =
     Some 1600000000000 \<and>
   fst (init exampleEnv) =
     [''Checking for appointments...'',
      ''There is a TTP appointment available at Louisville on 9/13/2020, 8:26:40 AM!'',
      ''There is a TTP appointment available at Cincinnati on 11/14/2023, 5:13:20 PM!''] \<and>
   sorted_wrt le_number [Some 1600000000000, Some 1700000000000]"
proof -
  let ?apps = "[toAppointment exampleEnv [cincinnati, louisville] (slotAt 1 1700000000000),
          toAppointment exampleEnv [cincinnati, louisville] (slotAt 2 1600000000000)]"
  have h1: "getAllLocations exampleEnv = Inr [cincinnati, louisville]"
    by (simp add: getAllLocations_def exampleEnv_def)
  have h2: "getAvailableAppointments exampleEnv [cincinnati, louisville]
       (getAllLocationIds [cincinnati, louisville] regions) 1 = Inr ?apps"
    by (simp add: run_defs example_defs)
  have h3: "?apps \<noteq> []" by simp
  have d1: "dateParse exampleEnv
     (start (toAppointment exampleEnv [cincinnati, louisville] (slotAt 1 1700000000000))) =
     Some 1700000000000"
    by (simp add: toAppointment_def example_defs)
  have d2: "dateParse exampleEnv
     (start (toAppointment exampleEnv [cincinnati, louisville] (slotAt 2 1600000000000))) =
     Some 1600000000000"
    by (simp add: toAppointment_def example_defs)
  have h4: "\<forall>a \<in> set ?apps. dateParse exampleEnv (start a) \<noteq> None"
    using d1 d2 by simp
  have s: "array_sort (byStart exampleEnv) ?apps = rev ?apps"
    using d1 d2 by (simp add: array_sort_def byStart_def sortCompare_def)
  from init_prints_sorted [OF h1 h2 h3 h4] have
    "fst (init exampleEnv) = ''Checking for appointments...'' # map logLine (rev ?apps)"
    unfolding s by blast
  then have o: "fst (init exampleEnv) =
     [''Checking for appointments...'',
      ''There is a TTP appointment available at Louisville on 9/13/2020, 8:26:40 AM!'',
      ''There is a TTP appointment available at Cincinnati on 11/14/2023, 5:13:20 PM!'']"
    by (simp add: logLine_def toAppointment_def example_defs)
  have "sorted_wrt le_number [Some 1600000000000, Some 1700000000000]" by simp
  with h1 h2 d1 d2 o show ?thesis by blast
qed

text \<open>
  The claim as stated, for every run, fails when a slot carries a timestamp beyond the
  range of dates: its \<open>start\<close> string is "Invalid Date", every comparison with it is
  NaN, the sort leaves the three appointments in the order they arrived, and \<open>init\<close>
  prints the appointment of 2023 before the appointment of 2020.
\<close>

theorem init_prints_sorted_counterexample:
  "getAllLocations invalidEnv = Inr [cincinnati, louisville, indianapolis] \<and>
   getAvailableAppointments invalidEnv [cincinnati, louisville, indianapolis]
       (getAllLocationIds [cincinnati, louisville, indianapolis] regions) 1 =
     Inr [\<lparr>location = ''Cincinnati'', start = ''11/14/2023, 5:13:20 PM'',
            end_time = ''11/14/2023, 6:13:20 PM''\<rparr>,
          \<lparr>location = ''Louisville'', start = ''Invalid Date'', end_time = ''Invalid Date''\<rparr>,
          \<lparr>location = ''Indianapolis'', start = ''9/13/2020, 8:26:40 AM'',
            end_time = ''9/13/2020, 9:26:40 AM''\<rparr>] \<and>
   fst (init invalidEnv) =
     [''Checking for appointments...'',
      ''There is a TTP appointment available at Cincinnati on 11/14/2023, 5:13:20 PM!'',
      ''There is a TTP appointment available at Louisville on Invalid Date!'',
      ''There is a TTP appointment available at Indianapolis on 9/13/2020, 8:26:40 AM!''] \<and>
   dateParse invalidEnv ''11/14/2023, 5:13:20 PM'' = Some 1700000000000 \<and>
   dateParse invalidEnv ''Invalid Date'' = None \<and>
   dateParse invalidEnv ''9/13/2020, 8:26:40 AM'' = Some 1600000000000 \<and>
   \<not> le_number (dateParse invalidEnv ''11/14/2023, 5:13:20 PM'')
         (dateParse invalidEnv ''9/13/2020, 8:26:40 AM'')"
proof -
  let ?apps = "[\<lparr>location = ''Cincinnati'', start = ''11/14/2023, 5:13:20 PM'',
            end_time = ''11/14/2023, 6:13:20 PM''\<rparr>,
          \<lparr>location = ''Louisville'', start = ''Invalid Date'', end_time = ''Invalid Date''\<rparr>,
          \<lparr>location = ''Indianapolis'', start = ''9/13/2020, 8:26:40 AM'',
            end_time = ''9/13/2020, 9:26:40 AM''\<rparr>]"
  have h1: "getAllLocations invalidEnv = Inr [cincinnati, louisville, indianapolis]"
    by (simp add: getAllLocations_def invalidEnv_def exampleEnv_def)
  have h2: "getAvailableAppointments invalidEnv [cincinnati, louisville, indianapolis]
       (getAllLocationIds [cincinnati, louisville, indianapolis] regions) 1 = Inr ?apps"
    by (simp add: run_defs example_defs)
  have d: "dateParse invalidEnv ''11/14/2023, 5:13:20 PM'' = Some 1700000000000"
    "dateParse invalidEnv ''Invalid Date'' = None"
    "dateParse invalidEnv ''9/13/2020, 8:26:40 AM'' = Some 1600000000000"
    by (simp_all add: invalidEnv_def exampleEnv_def easternTime_def)
  have s: "array_sort (byStart invalidEnv) ?apps = ?apps"
    using d by (simp add: array_sort_def byStart_def sortCompare_def)
  have "fst (init invalidEnv) = ''Checking for appointments...'' # map logLine ?apps"
    using init_nonempty [OF h1 h2] unfolding s by simp
  then have o: "fst (init invalidEnv) =
     [''Checking for appointments...'',
      ''There is a TTP appointment available at Cincinnati on 11/14/2023, 5:13:20 PM!'',
      ''There is a TTP appointment available at Louisville on Invalid Date!'',
      ''There is a TTP appointment available at Indianapolis on 9/13/2020, 8:26:40 AM!'']"
    by (simp add: logLine_def)
  have n: "\<not> le_number (dateParse invalidEnv ''11/14/2023, 5:13:20 PM'')
         (dateParse invalidEnv ''9/13/2020, 8:26:40 AM'')"
    unfolding d by simp
  from h1 h2 o d n show ?thesis by blast
qed

text \<open>
  Claim C5. In a run whose aggregated list is empty, \<open>init\<close> prints its first line and
  the line "No appointments found.", and no line of an appointment; in a run whose
  aggregated list is not empty it prints, after its first line, one line per appointment
  and never the line "No appointments found.".
\<close>

theorem init_branches:
  assumes "getAllLocations env = Inr locations"
    and "getAvailableAppointments env locations (getAllLocationIds locations regions) 1 = Inr appointments"
  shows "(appointments = [] \<longrightarrow>
            fst (init env) = [''Checking for appointments...'', ''No appointments found.''] \<and>
            (\<forall>a. logLine a \<notin> set (fst (init env)))) \<and>
         (appointments \<noteq> [] \<longrightarrow>
            fst (init env) =
              ''Checking for appointments...'' # map logLine (array_sort (byStart env) appointments) \<and>
            length (array_sort (byStart env) appointments) = length appointments \<and>
            ''No appointments found.'' \<notin> set (fst (init env)))"
proof (intro conjI impI allI)
  assume e: "appointments = []"
  show o: "fst (init env) = [''Checking for appointments...'', ''No appointments found.'']"
    using init_empty assms e by blast
  fix a show "logLine a \<notin> set (fst (init env))"
    unfolding o by (rule no_line_logged)
next
  assume n: "appointments \<noteq> []"
  show o: "fst (init env) =
       ''Checking for appointments...'' # map logLine (array_sort (byStart env) appointments)"
    by (rule init_nonempty [OF assms n])
  show "length (array_sort (byStart env) appointments) = length appointments"
    by (rule array_sort_length)
  show "''No appointments found.'' \<notin> set (fst (init env))"
    unfolding o by (rule none_not_logged)
qed

theorem init_branches_witness:
  "getAllLocations farEnv = Inr [sacramento] \<and>
   getAvailableAppointments farEnv [sacramento] (getAllLocationIds [sacramento] regions) 1 = Inr [] \<and>
   fst (init farEnv) = [''Checking for appointments...'', ''No appointments found.''] \<and>
   getAllLocations exampleEnv = Inr [cincinnati, louisville] \<and>
   getAvailableAppointments exampleEnv [cincinnati, louisville]
       (getAllLocationIds [cincinnati, louisville] regions) 1 =
     Inr [toAppointment exampleEnv [cincinnati, louisville] (slotAt 1 1700000000000),
          toAppointment exampleEnv [cincinnati, louisville] (slotAt 2 1600000000000)] \<and>
   length (fst (init exampleEnv)) = 3 \<and>
   ''No appointments found.'' \<notin> set (fst (init exampleEnv))"
proof -
  let ?apps = "[toAppointment exampleEnv [cincinnati, louisville] (slotAt 1 1700000000000),
          toAppointment exampleEnv [cincinnati, louisville] (slotAt 2 1600000000000)]"
  have f1: "getAllLocations farEnv = Inr [sacramento]"
    by (simp add: getAllLocations_def farEnv_def exampleEnv_def)
  have f2: "getAvailableAppointments farEnv [sacramento] (getAllLocationIds [sacramento] regions) 1 = Inr []"
    by (simp add: run_defs sacramento_def)
  have h1: "getAllLocations exampleEnv = Inr [cincinnati, louisville]"
    by (simp add: getAllLocations_def exampleEnv_def)
  have h2: "getAvailableAppointments exampleEnv [cincinnati, louisville]
       (getAllLocationIds [cincinnati, louisville] regions) 1 = Inr ?apps"
    by (simp add: run_defs example_defs)
  note far = init_branches [OF f1 f2] and example = init_branches [OF h1 h2]
  have n: "?apps \<noteq> []" by simp
  from far have a: "fst (init farEnv) = [''Checking for appointments...'', ''No appointments found.'']"
    by blast
  from example n have o: "fst (init exampleEnv) =
      ''Checking for appointments...'' # map logLine (array_sort (byStart exampleEnv) ?apps)"
    by blast
  from example n have l: "length (array_sort (byStart exampleEnv) ?apps) = length ?apps"
    by blast
  from example n have b: "''No appointments found.'' \<notin> set (fst (init exampleEnv))"
    by blast
  have "length (fst (init exampleEnv)) = 3" unfolding o using l by simp
  with a b f1 f2 h1 h2 show ?thesis by blast
qed

text \<open>
  Claim C9. Without location identifiers \<open>getAvailableAppointments\<close> starts no request
  and fulfils with the empty list; so a run in which no location passes the filter
  prints "No appointments found.".
\<close>

theorem getAvailableAppointments_no_ids:
  "getAvailableAppointments env locations [] limit = Inr [] \<and>
   (getAllLocations env = Inr locations \<and> getAllLocationIds locations regions = [] \<longrightarrow>
      init env = ([''Checking for appointments...'', ''No appointments found.''], Inr ()))"
  by (simp add: getAvailableAppointments_def slotsTasks_def init_def)

theorem getAvailableAppointments_no_ids_witness:
  "getAllLocations farEnv = Inr [sacramento] \<and> getAllLocationIds [sacramento] regions = [] \<and>
   getAvailableAppointments farEnv [sacramento] [] 1 = Inr [] \<and>
   init farEnv = ([''Checking for appointments...'', ''No appointments found.''], Inr ())"
proof -
  have f1: "getAllLocations farEnv = Inr [sacramento]"
    by (simp add: getAllLocations_def farEnv_def exampleEnv_def)
  have f2: "getAllLocationIds [sacramento] regions = []"
    by (simp add: getAllLocationIds_def regions_def sacramento_def)
  from getAvailableAppointments_no_ids [of farEnv "[sacramento]" 1] f1 f2 show ?thesis
    by simp
qed

end
